theory Spec2Isabelle
  imports Complex_Main "HOL-Library.AList"
begin

section \<open>Catalog rows and card metadata (src/main.py)\<close>

text \<open>
  \<^verbatim>\<open>build_index_inline\<close> reads \<^verbatim>\<open>cards.csv\<close> with pandas and looks at the
  columns \<^verbatim>\<open>id, name, set, number, hp, image_path\<close> of every row. Each cell is
  used through \<^verbatim>\<open>str(...)\<close>, so a row is modelled by the six strings that
  \<^verbatim>\<open>str\<close> yields for its cells. The column names \<^verbatim>\<open>id\<close> and \<^verbatim>\<open>set\<close> are
  HOL constants, hence the suffix \<open>_col\<close>.
\<close>

record row =
  id_col :: string
  name_col :: string
  set_col :: string
  number_col :: string
  hp_col :: string
  image_path_col :: string

text \<open>The dictionary stored under \<^verbatim>\<open>meta[cid]\<close> (main.py, lines 135 to 141).\<close>

record card_meta =
  meta_name :: string
  meta_set :: string
  meta_number :: string
  meta_hp :: "int option"
  meta_image_path :: string

section \<open>What the script takes from its libraries\<close>

text \<open>
  The script calls into pathlib, PIL, torch, open_clip and the Python built-ins;
  their code is not in the repository, so they are the fields of an environment:
  \<^item> \<open>path_str\<close> is \<^verbatim>\<open>str(pathlib.Path(s))\<close>, the normalised text of a path;
  \<^item> \<open>path_exists\<close> is \<^verbatim>\<open>Path.exists\<close> on the image store;
  \<^item> \<open>encode_image\<close> is lines 127 to 130: \<^verbatim>\<open>Image.open(p).convert("RGB")\<close>,
    the preprocessing and \<^verbatim>\<open>model.encode_image\<close>; it is \<open>None\<close> when one of
    them raises (a file that exists and is not a decodable image, for instance);
  \<^item> \<open>l2_normalize\<close> is line 131, \<^verbatim>\<open>z / z.norm(dim=-1, keepdim=True)\<close>, in the
    float32 arithmetic of torch; \<open>'v\<close> is the type of the float32 vectors of the
    fixed dimension that the encoder produces;
  \<^item> \<open>str_isdigit\<close> is \<^verbatim>\<open>str.isdigit\<close> and \<open>int_of_str\<close> is \<^verbatim>\<open>int\<close>, which
    Python decides from its Unicode tables; both are taken as functions of the
    text of the hp cell, and \<open>int_of_str\<close> is \<open>None\<close> when \<^verbatim>\<open>int\<close> raises
    \<^verbatim>\<open>ValueError\<close>, which it does on some strings that \<^verbatim>\<open>isdigit\<close> accepts
    (a superscript two, for instance).
\<close>

record 'v env =
  path_str :: "string \<Rightarrow> string"
  path_exists :: "string \<Rightarrow> bool"
  encode_image :: "string \<Rightarrow> 'v option"
  l2_normalize :: "'v \<Rightarrow> 'v"
  str_isdigit :: "string \<Rightarrow> bool"
  int_of_str :: "string \<Rightarrow> int option"

section \<open>Persisted artifacts and the file system\<close>

text \<open>
  The three artifact paths of main.py (lines 21 to 26), relative to the repository
  root.
\<close>

definition FAISS_PATH :: string where
  "FAISS_PATH = ''data/catalog/embeddings.faiss''"

definition IDS_NPY :: string where
  "IDS_NPY = ''data/catalog/ids.npy''"

definition META_JSON :: string where
  "META_JSON = ''data/catalog/id_to_meta.json''"

text \<open>
  What a file holds. \<open>IdsNpy\<close> is the array written
  by \<^verbatim>\<open>np.save\<close>, \<open>MetaJson\<close> the dictionary written by \<^verbatim>\<open>json.dump\<close> (a Python
  dictionary keeps its keys in insertion order, so it is an association list with
  distinct keys), \<open>FaissIndex\<close> the flat inner-product index written by
  \<^verbatim>\<open>faiss.write_index\<close>. \<open>HalfWritten\<close> is a file that has been opened for writing
  (and thereby truncated) and whose contents have not been written completely: it
  decodes to nothing.
\<close>

datatype 'v artifact =
    IdsNpy "string list"
  | MetaJson "(string \<times> card_meta) list"
  | FaissIndex "'v list"
  | HalfWritten

type_synonym 'v fs = "string \<rightharpoonup> 'v artifact"

text \<open>
  The writes of lines 151 to 154, in the order of the source:
  \<^verbatim>\<open>np.save(IDS_NPY, ids_arr)\<close>, \<^verbatim>\<open>open(META_JSON, "w")\<close>,
  \<^verbatim>\<open>json.dump(meta, f)\<close>, \<^verbatim>\<open>faiss.write_index(index, FAISS_PATH)\<close>.
  Every one of them writes into its target path directly.
\<close>

datatype 'v fs_op =
    NpSave string "string list"
  | OpenW string
  | JsonDump string "(string \<times> card_meta) list"
  | WriteIndex string "'v list"

fun apply_op :: "'v fs_op \<Rightarrow> 'v fs \<Rightarrow> 'v fs" where
  "apply_op (NpSave p ids) fs = fs(p \<mapsto> IdsNpy ids)"
| "apply_op (OpenW p) fs = fs(p \<mapsto> HalfWritten)"
| "apply_op (JsonDump p m) fs = fs(p \<mapsto> MetaJson m)"
| "apply_op (WriteIndex p vs) fs = fs(p \<mapsto> FaissIndex vs)"

definition run_ops :: "'v fs_op list \<Rightarrow> 'v fs \<Rightarrow> 'v fs" where
  "run_ops ops fs = foldl (\<lambda>s op. apply_op op s) fs ops"

definition persist_ops ::
  "string list \<Rightarrow> 'v list \<Rightarrow> (string \<times> card_meta) list \<Rightarrow> 'v fs_op list" where
  "persist_ops ids vecs meta =
     [NpSave IDS_NPY ids, OpenW META_JSON, JsonDump META_JSON meta, WriteIndex FAISS_PATH vecs]"

section \<open>The index build\<close>

datatype log_line =
    SkipMissing string
  | IndexSaved nat

datatype error =
    AssertNoRows
  | AssertNoVectors
  | ImageEncodeFailed
  | ValueError string
  | ReadIndexFailed
  | NpLoadFailed
  | JsonLoadFailed
  | IndexError int
  | KeyError string

text \<open>Line 122: \<^verbatim>\<open>img_path = pathlib.Path(str(row["image_path"]))\<close>, as text.\<close>

definition img_path_of :: "'v env \<Rightarrow> row \<Rightarrow> string" where
  "img_path_of env r = path_str env (image_path_col r)"

text \<open>
  Lines 127 to 132: the image is opened and encoded, and the result is divided by
  its norm. Nothing catches an exception of these lines.
\<close>

definition embed :: "'v env \<Rightarrow> string \<Rightarrow> error + 'v" where
  "embed env p =
     (case encode_image env p of
        None \<Rightarrow> Inl ImageEncodeFailed
      | Some z \<Rightarrow> Inr (l2_normalize env z))"

text \<open>
  Lines 135 to 141: the metadata of a row. \<^verbatim>\<open>int(row["hp"])\<close> is evaluated when
  \<^verbatim>\<open>str(row.get("hp","")).isdigit()\<close> holds, and its \<^verbatim>\<open>ValueError\<close> is not caught.
\<close>

definition meta_of_row :: "'v env \<Rightarrow> row \<Rightarrow> error + card_meta" where
  "meta_of_row env r =
     (if str_isdigit env (hp_col r)
      then (case int_of_str env (hp_col r) of
              None \<Rightarrow> Inl (ValueError (hp_col r))
            | Some n \<Rightarrow>
                Inr \<lparr> meta_name = name_col r, meta_set = set_col r,
                      meta_number = number_col r, meta_hp = Some n,
                      meta_image_path = img_path_of env r \<rparr>)
      else Inr \<lparr> meta_name = name_col r, meta_set = set_col r,
                 meta_number = number_col r, meta_hp = None,
                 meta_image_path = img_path_of env r \<rparr>)"

text \<open>
  The loop of lines 119 to 141 over the rows, with its three accumulators and the
  lines it has printed. An exception of the body ends the loop, and the build,
  at once.
\<close>

fun build_loop ::
  "'v env \<Rightarrow> row list \<Rightarrow> string list \<Rightarrow> 'v list \<Rightarrow> (string \<times> card_meta) list \<Rightarrow>
   log_line list \<Rightarrow>
   log_line list \<times> (error + string list \<times> 'v list \<times> (string \<times> card_meta) list)" where
  "build_loop env [] ids vecs meta out = (out, Inr (ids, vecs, meta))"
| "build_loop env (r # rs) ids vecs meta out =
     (if \<not> path_exists env (img_path_of env r)
      then build_loop env rs ids vecs meta (out @ [SkipMissing (img_path_of env r)])
      else
        (case embed env (img_path_of env r) of
           Inl e \<Rightarrow> (out, Inl e)
         | Inr vec \<Rightarrow>
             (case meta_of_row env r of
                Inl e \<Rightarrow> (out, Inl e)
              | Inr m \<Rightarrow>
                  build_loop env rs (ids @ [id_col r]) (vecs @ [vec])
                    (AList.update (id_col r) m meta) out)))"

text \<open>
  \<^verbatim>\<open>build_index_inline\<close>: the printed lines, and either the exception that ended
  the build or the file system after the writes.
\<close>

definition build_index_inline ::
  "'v env \<Rightarrow> row list \<Rightarrow> 'v fs \<Rightarrow> log_line list \<times> (error + 'v fs)" where
  "build_index_inline env rows fs =
     (if rows = [] then ([], Inl AssertNoRows)
      else
        (case build_loop env rows [] [] [] [] of
           (out, Inl e) \<Rightarrow> (out, Inl e)
         | (out, Inr (ids, vecs, meta)) \<Rightarrow>
             if vecs = [] then (out, Inl AssertNoVectors)
             else (out @ [IndexSaved (length ids)],
                   Inr (run_ops (persist_ops ids vecs meta) fs))))"

section \<open>Notions used to state the properties of the build\<close>

text \<open>Rows whose image exists, in catalog order, and the rows that are skipped.\<close>

definition embedded_rows :: "'v env \<Rightarrow> row list \<Rightarrow> row list" where
  "embedded_rows env rows = filter (\<lambda>r. path_exists env (img_path_of env r)) rows"

definition skipped_rows :: "'v env \<Rightarrow> row list \<Rightarrow> row list" where
  "skipped_rows env rows = filter (\<lambda>r. \<not> path_exists env (img_path_of env r)) rows"

text \<open>
  What the body of the loop yields for a row with an image: its id, its vector and
  its metadata, or the exception it raises.
\<close>

definition embed_row :: "'v env \<Rightarrow> row \<Rightarrow> error + string \<times> 'v \<times> card_meta" where
  "embed_row env r =
     (case embed env (img_path_of env r) of
        Inl e \<Rightarrow> Inl e
      | Inr vec \<Rightarrow>
          (case meta_of_row env r of
             Inl e \<Rightarrow> Inl e
           | Inr m \<Rightarrow> Inr (id_col r, vec, m)))"

text \<open>No row with an image makes the libraries raise.\<close>

definition rows_embeddable :: "'v env \<Rightarrow> row list \<Rightarrow> bool" where
  "rows_embeddable env rows = list_all (\<lambda>r. \<not> isl (embed_row env r)) (embedded_rows env rows)"

text \<open>
  The vector and the metadata of a row that can be embedded (the values that the
  body of the loop appends for it).
\<close>

definition row_vec :: "'v env \<Rightarrow> row \<Rightarrow> 'v" where
  "row_vec env r = projr (embed env (img_path_of env r))"

definition row_meta :: "'v env \<Rightarrow> row \<Rightarrow> card_meta" where
  "row_meta env r = projr (meta_of_row env r)"

section \<open>Loading the artifacts\<close>

text \<open>
  Lines 169 to 171 of \<^verbatim>\<open>identify_first_image_inline\<close>:
  \<^verbatim>\<open>faiss.read_index\<close>, \<^verbatim>\<open>np.load\<close> and \<^verbatim>\<open>json.loads\<close> of the file's text. Each
  of them raises when its file is missing or does not decode.
\<close>

definition read_index :: "'v fs \<Rightarrow> error + 'v list" where
  "read_index fs = (case fs FAISS_PATH of Some (FaissIndex vecs) \<Rightarrow> Inr vecs | _ \<Rightarrow> Inl ReadIndexFailed)"

definition np_load :: "'v fs \<Rightarrow> error + string list" where
  "np_load fs = (case fs IDS_NPY of Some (IdsNpy ids) \<Rightarrow> Inr ids | _ \<Rightarrow> Inl NpLoadFailed)"

definition json_load :: "'v fs \<Rightarrow> error + (string \<times> card_meta) list" where
  "json_load fs = (case fs META_JSON of Some (MetaJson meta) \<Rightarrow> Inr meta | _ \<Rightarrow> Inl JsonLoadFailed)"

definition load_artifacts ::
  "'v fs \<Rightarrow> error + ('v list \<times> string list \<times> (string \<times> card_meta) list)" where
  "load_artifacts fs =
     (case read_index fs of
        Inl e \<Rightarrow> Inl e
      | Inr index \<Rightarrow>
          (case np_load fs of
             Inl e \<Rightarrow> Inl e
           | Inr ids \<Rightarrow>
               (case json_load fs of
                  Inl e \<Rightarrow> Inl e
                | Inr meta \<Rightarrow> Inr (index, ids, meta))))"

section \<open>Identifying the first catalog image\<close>

text \<open>
  \<^verbatim>\<open>ids[idx]\<close> on the numpy array of ids: a negative index counts from the end,
  an index out of range raises \<^verbatim>\<open>IndexError\<close>. \<^verbatim>\<open>meta[cid]\<close> on the dictionary
  raises \<^verbatim>\<open>KeyError\<close> for a missing key.
\<close>

definition np_index :: "string list \<Rightarrow> int \<Rightarrow> error + string" where
  "np_index ids idx =
     (let n = int (length ids); j = (if idx < 0 then n + idx else idx)
      in if 0 \<le> j \<and> j < n then Inr (ids ! nat j) else Inl (IndexError idx))"

definition dict_get :: "(string \<times> card_meta) list \<Rightarrow> string \<Rightarrow> error + card_meta" where
  "dict_get meta cid = (case map_of meta cid of None \<Rightarrow> Inl (KeyError cid) | Some m \<Rightarrow> Inr m)"

text \<open>
  The lines that \<^verbatim>\<open>identify_first_image_inline\<close> prints; \<open>'s\<close> is the type of
  the float32 scores that the search returns.
\<close>

datatype 's identify_line =
    QueryImage string
  | TopResults
  | ResultRow string string 's string string

text \<open>
  The loop of lines 188 to 191 over \<^verbatim>\<open>zip(D, I)\<close>: it stops at the first lookup
  that raises, after the rows printed so far.
\<close>

fun print_results ::
  "string list \<Rightarrow> (string \<times> card_meta) list \<Rightarrow> ('s \<times> int) list \<Rightarrow>
   's identify_line list \<Rightarrow> 's identify_line list \<times> error option" where
  "print_results ids meta [] out = (out, None)"
| "print_results ids meta ((d, idx) # rest) out =
     (case np_index ids idx of
        Inl e \<Rightarrow> (out, Some e)
      | Inr cid \<Rightarrow>
          (case dict_get meta cid of
             Inl e \<Rightarrow> (out, Some e)
           | Inr m \<Rightarrow>
               print_results ids meta rest
                 (out @ [ResultRow cid (meta_name m) d (meta_set m) (meta_number m)])))"

text \<open>
  \<^verbatim>\<open>identify_first_image_inline\<close> (lines 157 to 191). The search of the faiss
  index is a library call (\<^verbatim>\<open>index.search(qvec, topk)\<close>): it is the parameter
  \<open>search\<close>, which returns the scores and positions of the first query row,
  zipped. The artifacts are loaded before the query image is opened; the image is
  opened without a check that it exists, and an exception of the opening or of
  the encoder ends the run.
\<close>

definition identify_first_image_inline ::
  "('v list \<Rightarrow> 'v \<Rightarrow> int \<Rightarrow> ('s \<times> int) list) \<Rightarrow> 'v env \<Rightarrow> row list \<Rightarrow> 'v fs \<Rightarrow> int \<Rightarrow>
   's identify_line list \<times> error option" where
  "identify_first_image_inline search env rows fs topk =
     (case rows of
        [] \<Rightarrow> ([], Some AssertNoRows)
      | r # _ \<Rightarrow>
          (case load_artifacts fs of
             Inl e \<Rightarrow> ([QueryImage (img_path_of env r)], Some e)
           | Inr (index, ids, meta) \<Rightarrow>
               (case embed env (img_path_of env r) of
                  Inl e \<Rightarrow> ([QueryImage (img_path_of env r)], Some e)
                | Inr qvec \<Rightarrow>
                    print_results ids meta (search index qvec topk)
                      [QueryImage (img_path_of env r), TopResults])))"

text \<open>A search position whose id is in range and has a metadata record.\<close>

definition lookup_ok :: "string list \<Rightarrow> (string \<times> card_meta) list \<Rightarrow> int \<Rightarrow> bool" where
  "lookup_ok ids meta idx =
     (case np_index ids idx of Inl e \<Rightarrow> False | Inr cid \<Rightarrow> map_of meta cid \<noteq> None)"

text \<open>
  The numbers of ids, of vectors and of metadata entries that a file system holds,
  when the three artifacts decode.
\<close>

definition artifact_counts :: "'v fs \<Rightarrow> (nat \<times> nat \<times> nat) option" where
  "artifact_counts fs =
     (case (np_load fs, read_index fs, json_load fs) of
        (Inr ids, Inr vecs, Inr meta) \<Rightarrow> Some (length ids, length vecs, length meta)
      | _ \<Rightarrow> None)"

section \<open>An interrupted build\<close>

text \<open>
  The file system that a build leaves when the process stops after the first \<open>n\<close>
  of its four writes (lines 151 to 154); with \<open>n\<close> at least four all of them ran.
\<close>

definition persist_crashed ::
  "nat \<Rightarrow> string list \<Rightarrow> 'v list \<Rightarrow> (string \<times> card_meta) list \<Rightarrow> 'v fs \<Rightarrow> 'v fs" where
  "persist_crashed n ids vecs meta fs = run_ops (take n (persist_ops ids vecs meta)) fs"

section \<open>The Vector Index of the specification\<close>

text \<open>
  Modelled from the spec: the Vector Index component (section 4.1, \<^verbatim>\<open>build\<close> and
  \<^verbatim>\<open>search\<close>). The source has no search of its own: main.py hands the vectors
  to the faiss library (\<^verbatim>\<open>IndexFlatIP\<close>, lines 148, 149 and 185) and what that
  library returns is not in the repository. The definitions below follow the
  words of the specification. Vectors are lists of real numbers, so the scores
  are exact inner products; the ranking uses the order of the scores only.
\<close>

datatype vi_error = DimensionMismatch | EmptyInput | InvalidArgument

text \<open>
  Modelled from the spec: \<^verbatim>\<open>build\<close> fails with \<^verbatim>\<open>EmptyInput\<close> on the empty
  sequence and with \<^verbatim>\<open>DimensionMismatch\<close> if the length of some vector differs
  from the length of the first one; the index is the sequence of vectors.
\<close>

definition vi_build :: "real list list \<Rightarrow> vi_error + real list list" where
  "vi_build vectors =
     (if vectors = [] then Inl EmptyInput
      else if list_ex (\<lambda>v. length v \<noteq> length (hd vectors)) vectors then Inl DimensionMismatch
      else Inr vectors)"

text \<open>Modelled from the spec: the dot product of the query and a stored vector.\<close>

definition dot :: "real list \<Rightarrow> real list \<Rightarrow> real" where
  "dot u v = sum_list (map2 (\<lambda>x y. x * y) u v)"

text \<open>
  Modelled from the spec: results by descending score, ties by ascending original
  insertion position. The (position, score) pairs are taken in insertion order
  and each is put behind the pairs whose score is at least its own.
\<close>

fun insert_ranked :: "nat \<times> real \<Rightarrow> (nat \<times> real) list \<Rightarrow> (nat \<times> real) list" where
  "insert_ranked x [] = [x]"
| "insert_ranked x (y # ys) =
     (if snd y < snd x then x # y # ys else y # insert_ranked x ys)"

definition rank_all :: "(nat \<times> real) list \<Rightarrow> (nat \<times> real) list" where
  "rank_all ps = foldl (\<lambda>acc p. insert_ranked p acc) [] ps"

text \<open>
  Modelled from the spec: \<^verbatim>\<open>search\<close> rejects \<open>k \<le> 0\<close> with
  \<^verbatim>\<open>InvalidArgument\<close> and a query whose length is not the dimension of the index
  with \<^verbatim>\<open>DimensionMismatch\<close>, and returns the first \<open>k\<close> of the ranked
  (position, score) pairs.
\<close>

definition vi_search :: "real list list \<Rightarrow> real list \<Rightarrow> int \<Rightarrow> vi_error + (nat \<times> real) list" where
  "vi_search index query k =
     (if k \<le> 0 then Inl InvalidArgument
      else if length query \<noteq> length (hd index) then Inl DimensionMismatch
      else Inr (take (nat k) (rank_all (enumerate 0 (map (dot query) index)))))"

text \<open>
  Modelled from the spec: a unit vector, as the dot product sees it (the square of
  its L2 norm is 1).
\<close>

definition unit_vector :: "real list \<Rightarrow> bool" where
  "unit_vector w = (dot w w = 1)"

text \<open>The order of the results: higher score first, and on equal scores lower position first.\<close>

definition ranked_before :: "nat \<times> real \<Rightarrow> nat \<times> real \<Rightarrow> bool" where
  "ranked_before a b = (snd b < snd a \<or> (snd a = snd b \<and> fst a < fst b))"

section \<open>A small catalog used to evaluate the model\<close>

text \<open>
  The digits of ASCII, for the environment of the examples.
\<close>

definition ascii_isdigit :: "string \<Rightarrow> bool" where
  "ascii_isdigit s = (s \<noteq> [] \<and> list_all (\<lambda>c. c \<in> set ''0123456789'') s)"

definition ascii_int :: "string \<Rightarrow> int option" where
  "ascii_int s =
     (if ascii_isdigit s then Some (foldl (\<lambda>n c. 10 * n + (of_char c - 48)) 0 s) else None)"

text \<open>
  Three files exist in the image store; the third is not a decodable image. The
  vectors of the examples have one component: the encoder gives the first image
  the vector 1 and the second the vector -1, and the normalisation leaves these
  unit vectors as they are.
\<close>

definition demo_exists :: "string \<Rightarrow> bool" where
  "demo_exists p = (p = ''img/1.jpg'' \<or> p = ''img/22.jpg'' \<or> p = ''img/bad.jpg'')"

definition demo_encode :: "string \<Rightarrow> int option" where
  "demo_encode p =
     (if p = ''img/1.jpg'' then Some 1 else if p = ''img/22.jpg'' then Some (- 1) else None)"

definition demo_env :: "int env" where
  "demo_env =
     \<lparr> path_str = (\<lambda>s. s), path_exists = demo_exists, encode_image = demo_encode,
       l2_normalize = (\<lambda>z. z), str_isdigit = ascii_isdigit, int_of_str = ascii_int \<rparr>"

definition demo_row :: "string \<Rightarrow> string \<Rightarrow> string \<Rightarrow> string \<Rightarrow> row" where
  "demo_row i n h p =
     \<lparr> id_col = i, name_col = n, set_col = ''sv3'', number_col = ''1'', hp_col = h,
       image_path_col = p \<rparr>"

definition demo_meta :: "string \<Rightarrow> int option \<Rightarrow> string \<Rightarrow> card_meta" where
  "demo_meta n h p =
     \<lparr> meta_name = n, meta_set = ''sv3'', meta_number = ''1'', meta_hp = h,
       meta_image_path = p \<rparr>"

text \<open>A catalog in which two rows carry the same card id.\<close>

definition demo_dup_rows :: "row list" where
  "demo_dup_rows =
     [demo_row ''sv3-1'' ''Oddish'' ''50'' ''img/1.jpg'',
      demo_row ''sv3-1'' ''Gloom'' ''x'' ''img/22.jpg'']"

text \<open>
  Two catalogs whose second row has an image file that exists and does not
  decode; in the second catalog the two rows carry the same card id.
\<close>

definition demo_undecodable_rows :: "row list" where
  "demo_undecodable_rows =
     [demo_row ''sv3-1'' ''Oddish'' ''50'' ''img/1.jpg'',
      demo_row ''sv3-9'' ''Weezing'' ''70'' ''img/bad.jpg'']"

definition demo_dup_undecodable_rows :: "row list" where
  "demo_dup_undecodable_rows =
     [demo_row ''sv3-1'' ''Oddish'' ''50'' ''img/1.jpg'',
      demo_row ''sv3-1'' ''Gloom'' ''x'' ''img/bad.jpg'']"

text \<open>A file system with the artifacts of an earlier build, and a new mapping.\<close>

definition demo_old_meta :: "(string \<times> card_meta) list" where
  "demo_old_meta = [(''sv3-1'', demo_meta ''Oddish'' (Some 50) ''img/1.jpg'')]"

definition demo_new_meta :: "(string \<times> card_meta) list" where
  "demo_new_meta = [(''sv3-2'', demo_meta ''Gloom'' (Some 60) ''img/22.jpg'')]"

definition demo_old_fs :: "int fs" where
  "demo_old_fs = [IDS_NPY \<mapsto> IdsNpy [''sv3-1''], META_JSON \<mapsto> MetaJson demo_old_meta,
                  FAISS_PATH \<mapsto> FaissIndex [1]]"

text \<open>
  Artifacts of a build over two cards from which the metadata of the second card
  was removed by hand. The search of the examples ranks the stored one-component
  vectors by their product with the query, best first, and returns the first
  \<open>k\<close> of them, as many as the index holds at most.
\<close>

definition demo_corrupt_fs :: "int fs" where
  "demo_corrupt_fs =
     [IDS_NPY \<mapsto> IdsNpy [''sv3-1'', ''sv3-2''],
      META_JSON \<mapsto> MetaJson demo_old_meta,
      FAISS_PATH \<mapsto> FaissIndex [1, - 1]]"

definition demo_search :: "int list \<Rightarrow> int \<Rightarrow> int \<Rightarrow> (int \<times> int) list" where
  "demo_search index q k =
     take (nat k)
       (map (\<lambda>p. (snd p, int (fst p)))
          (sort_key (\<lambda>p. - snd p) (enumerate 0 (map (\<lambda>v. q * v) index))))"

text \<open>An index of two unit vectors.\<close>

definition demo_index :: "real list list" where
  "demo_index = [[1, 0], [0, 1]]"

section \<open>What the loop accumulates\<close>

lemma embed_row_Inr:
  "\<not> isl (embed_row env r) \<Longrightarrow>
   embed env (img_path_of env r) = Inr (row_vec env r) \<and>
   meta_of_row env r = Inr (row_meta env r) \<and>
   embed_row env r = Inr (id_col r, row_vec env r, row_meta env r)"
  by (auto simp add: embed_row_def row_vec_def row_meta_def split: sum.splits)

lemma build_loop_step:
  "build_loop env (r # rs) ids vecs meta out =
     (if \<not> path_exists env (img_path_of env r)
      then build_loop env rs ids vecs meta (out @ [SkipMissing (img_path_of env r)])
      else
        (case embed_row env r of
           Inl e \<Rightarrow> (out, Inl e)
         | Inr t \<Rightarrow>
             build_loop env rs (ids @ [fst t]) (vecs @ [fst (snd t)])
               (AList.update (fst t) (snd (snd t)) meta) out))"
  by (simp add: embed_row_def split: sum.splits)

lemma build_loop_ok:
  "rows_embeddable env rows \<Longrightarrow>
   build_loop env rows ids vecs meta out =
     (out @ map (\<lambda>r. SkipMissing (img_path_of env r)) (skipped_rows env rows),
      Inr (ids @ map id_col (embedded_rows env rows),
           vecs @ map (row_vec env) (embedded_rows env rows),
           fold (\<lambda>r. AList.update (id_col r) (row_meta env r)) (embedded_rows env rows) meta))"
proof (induction rows arbitrary: ids vecs meta out)
  case Nil
  then show ?case by (simp add: embedded_rows_def skipped_rows_def)
next
  case (Cons r rs)
  show ?case
  proof (cases "path_exists env (img_path_of env r)")
    case False
    then have "rows_embeddable env rs"
      using Cons.prems by (simp add: rows_embeddable_def embedded_rows_def)
    then show ?thesis
      using False Cons.IH by (simp add: embedded_rows_def skipped_rows_def)
  next
    case True
    then have ok: "\<not> isl (embed_row env r)" and rest: "rows_embeddable env rs"
      using Cons.prems by (simp_all add: rows_embeddable_def embedded_rows_def)
    note row = embed_row_Inr [OF ok]
    show ?thesis
      unfolding build_loop_step using True row Cons.IH [OF rest]
      by (simp add: embedded_rows_def skipped_rows_def)
  qed
qed

lemma build_loop_raise:
  "\<not> rows_embeddable env rows \<Longrightarrow>
   \<exists>r \<in> set (embedded_rows env rows). \<exists>e.
     embed_row env r = Inl e \<and> snd (build_loop env rows ids vecs meta out) = Inl e"
proof (induction rows arbitrary: ids vecs meta out)
  case Nil
  then show ?case by (simp add: rows_embeddable_def embedded_rows_def)
next
  case (Cons r rs)
  show ?case
  proof (cases "path_exists env (img_path_of env r)")
    case False
    then have "\<not> rows_embeddable env rs"
      using Cons.prems by (simp add: rows_embeddable_def embedded_rows_def)
    then show ?thesis
      using False Cons.IH by (simp add: embedded_rows_def)
  next
    case True
    show ?thesis
    proof (cases "embed_row env r")
      case (Inl e)
      then show ?thesis
        unfolding build_loop_step using True by (simp add: embedded_rows_def)
    next
      case (Inr t)
      then have "\<not> rows_embeddable env rs"
        using Cons.prems True by (simp add: rows_embeddable_def embedded_rows_def)
      from Cons.IH [OF this] show ?thesis
        unfolding build_loop_step using True Inr by (simp add: embedded_rows_def)
    qed
  qed
qed

lemma build_ok:
  "rows_embeddable env rows \<Longrightarrow>
   build_index_inline env rows fs =
     (map (\<lambda>r. SkipMissing (img_path_of env r)) (skipped_rows env rows) @
        (if embedded_rows env rows = [] then []
         else [IndexSaved (length (embedded_rows env rows))]),
      if rows = [] then Inl AssertNoRows
      else if embedded_rows env rows = [] then Inl AssertNoVectors
      else Inr (run_ops
             (persist_ops (map id_col (embedded_rows env rows))
                (map (row_vec env) (embedded_rows env rows))
                (fold (\<lambda>r. AList.update (id_col r) (row_meta env r))
                   (embedded_rows env rows) []))
             fs))"
  by (simp add: build_index_inline_def build_loop_ok embedded_rows_def skipped_rows_def)

lemma build_raise:
  assumes "\<not> rows_embeddable env rows"
  shows "\<exists>r \<in> set (embedded_rows env rows). \<exists>e.
     embed_row env r = Inl e \<and> snd (build_index_inline env rows fs) = Inl e"
proof -
  obtain r e where r: "r \<in> set (embedded_rows env rows)" "embed_row env r = Inl e"
      and l: "snd (build_loop env rows [] [] [] []) = Inl e"
    using build_loop_raise [OF assms] by blast
  have "rows \<noteq> []"
    using r(1) by (auto simp add: embedded_rows_def)
  moreover obtain out where "build_loop env rows [] [] [] [] = (out, Inl e)"
    using l by (cases "build_loop env rows [] [] [] []") auto
  ultimately have "snd (build_index_inline env rows fs) = Inl e"
    by (simp add: build_index_inline_def)
  then show ?thesis using r by blast
qed

lemma build_success:
  assumes "snd (build_index_inline env rows fs) = Inr fs'"
  shows "rows_embeddable env rows"
    and "embedded_rows env rows \<noteq> []"
    and "fs' = run_ops
             (persist_ops (map id_col (embedded_rows env rows))
                (map (row_vec env) (embedded_rows env rows))
                (fold (\<lambda>r. AList.update (id_col r) (row_meta env r))
                   (embedded_rows env rows) []))
             fs"
proof -
  show e: "rows_embeddable env rows"
    using assms build_raise [of env rows fs] by auto
  show "embedded_rows env rows \<noteq> []"
    using assms unfolding build_ok [OF e] by (simp split: if_splits)
  show "fs' = run_ops
             (persist_ops (map id_col (embedded_rows env rows))
                (map (row_vec env) (embedded_rows env rows))
                (fold (\<lambda>r. AList.update (id_col r) (row_meta env r))
                   (embedded_rows env rows) []))
             fs"
    using assms unfolding build_ok [OF e] by (simp split: if_splits)
qed

lemma demo_env_simps:
  "path_str demo_env s = s"
  "path_exists demo_env = demo_exists"
  "encode_image demo_env = demo_encode"
  "l2_normalize demo_env z = z"
  "str_isdigit demo_env = ascii_isdigit"
  "int_of_str demo_env = ascii_int"
  by (simp_all add: demo_env_def)

lemma demo_meta_of_row:
  "meta_of_row demo_env (demo_row i n ''50'' p) = Inr (demo_meta n (Some 50) p)"
  "meta_of_row demo_env (demo_row i n ''x'' p) = Inr (demo_meta n None p)"
  by (simp_all add: meta_of_row_def demo_env_simps demo_row_def demo_meta_def img_path_of_def
      ascii_isdigit_def ascii_int_def)

lemma paths_distinct:
  "IDS_NPY \<noteq> META_JSON" "IDS_NPY \<noteq> FAISS_PATH" "META_JSON \<noteq> FAISS_PATH"
  "META_JSON \<noteq> IDS_NPY" "FAISS_PATH \<noteq> IDS_NPY" "FAISS_PATH \<noteq> META_JSON"
  by (simp_all add: IDS_NPY_def META_JSON_def FAISS_PATH_def)

lemma run_persist:
  "run_ops (persist_ops ids vecs meta) fs =
     fs(IDS_NPY \<mapsto> IdsNpy ids, META_JSON \<mapsto> MetaJson meta, FAISS_PATH \<mapsto> FaissIndex vecs)"
  by (simp add: run_ops_def persist_ops_def)

lemma loads_after_persist:
  "np_load (run_ops (persist_ops ids vecs meta) fs) = Inr ids"
  "read_index (run_ops (persist_ops ids vecs meta) fs) = Inr vecs"
  "json_load (run_ops (persist_ops ids vecs meta) fs) = Inr meta"
  by (simp_all add: run_persist np_load_def read_index_def json_load_def paths_distinct)

lemma persist_twice:
  "run_ops (persist_ops ids vecs meta) (run_ops (persist_ops ids vecs meta) fs) =
     run_ops (persist_ops ids vecs meta) fs"
  by (rule ext) (simp add: run_persist)

lemma fold_update_keys:
  "fst ` set (fold (\<lambda>r. AList.update (id_col r) (row_meta env r)) E m) =
     fst ` set m \<union> id_col ` set E"
  by (induction E arbitrary: m) (auto simp add: dom_update)

lemma fold_update_distinct:
  "distinct (map fst m) \<Longrightarrow>
   distinct (map fst (fold (\<lambda>r. AList.update (id_col r) (row_meta env r)) E m))"
  by (induction E arbitrary: m) (simp_all add: distinct_update)

lemma fold_update_last:
  "map_of (fold (\<lambda>r. AList.update (id_col r) (row_meta env r)) E m) c =
     (if filter (\<lambda>r. id_col r = c) E = [] then map_of m c
      else Some (row_meta env (last (filter (\<lambda>r. id_col r = c) E))))"
  by (induction E rule: rev_induct) (simp_all add: update_conv')

lemma alist_length_card:
  "distinct (map fst m) \<Longrightarrow> length m = card (fst ` set m)"
  by (metis distinct_card length_map set_map)

lemma alist_single_entry:
  "distinct (map fst m) \<Longrightarrow> c \<in> fst ` set m \<Longrightarrow> length (filter (\<lambda>e. fst e = c) m) = 1"
  by (induction m) (auto simp add: image_iff filter_empty_conv)

lemma dup_in_filtered:
  assumes "i < j" "j < length xs" "P (xs ! i)" "P (xs ! j)" "f (xs ! i) = f (xs ! j)"
  shows "\<not> distinct (map f (filter P xs))"
proof -
  have i: "i < length xs" using assms by simp
  have split: "xs = take i xs @ xs ! i # drop (Suc i) xs"
    using i by (simp add: id_take_nth_drop)
  have "xs ! j = drop (Suc i) xs ! (j - Suc i)"
    using assms by simp
  moreover have "j - Suc i < length (drop (Suc i) xs)"
    using assms by simp
  ultimately have "xs ! j \<in> set (drop (Suc i) xs)"
    by (metis nth_mem)
  then have "f (xs ! i) \<in> set (map f (filter P (drop (Suc i) xs)))"
    using assms by force
  moreover have "map f (filter P xs) =
      map f (filter P (take i xs)) @ f (xs ! i) # map f (filter P (drop (Suc i) xs))"
    by (subst split) (simp add: assms)
  ultimately show ?thesis by simp
qed

lemma build_success_artifacts:
  assumes "snd (build_index_inline env rows fs) = Inr fs'"
  shows "np_load fs' = Inr (map id_col (embedded_rows env rows))"
    and "read_index fs' = Inr (map (row_vec env) (embedded_rows env rows))"
    and "json_load fs' = Inr (fold (\<lambda>r. AList.update (id_col r) (row_meta env r))
            (embedded_rows env rows) [])"
  unfolding build_success(3) [OF assms] by (rule loads_after_persist)+

lemma demo_row_simps:
  "id_col (demo_row i n h p) = i"
  "name_col (demo_row i n h p) = n"
  "hp_col (demo_row i n h p) = h"
  "image_path_col (demo_row i n h p) = p"
  by (simp_all add: demo_row_def)

lemma demo_embed_row:
  "embed_row demo_env (demo_row i n ''50'' ''img/1.jpg'') =
     Inr (i, 1, demo_meta n (Some 50) ''img/1.jpg'')"
  "embed_row demo_env (demo_row i n ''x'' ''img/22.jpg'') =
     Inr (i, - 1, demo_meta n None ''img/22.jpg'')"
  "embed_row demo_env (demo_row i n h ''img/bad.jpg'') = Inl ImageEncodeFailed"
  by (simp_all add: embed_row_def embed_def demo_meta_of_row demo_env_simps demo_encode_def
      img_path_of_def demo_row_simps)

lemma demo_row_exists:
  "path_exists demo_env (img_path_of demo_env (demo_row i n h ''img/1.jpg''))"
  "path_exists demo_env (img_path_of demo_env (demo_row i n h ''img/22.jpg''))"
  "path_exists demo_env (img_path_of demo_env (demo_row i n h ''img/bad.jpg''))"
  "\<not> path_exists demo_env (img_path_of demo_env (demo_row i n h ''img/9.jpg''))"
  by (simp_all add: demo_env_simps demo_exists_def img_path_of_def demo_row_simps)

lemma demo_row_vec_meta:
  "row_vec demo_env (demo_row i n ''50'' ''img/1.jpg'') = 1"
  "row_vec demo_env (demo_row i n ''x'' ''img/22.jpg'') = - 1"
  "row_meta demo_env (demo_row i n ''50'' ''img/1.jpg'') = demo_meta n (Some 50) ''img/1.jpg''"
  "row_meta demo_env (demo_row i n ''x'' ''img/22.jpg'') = demo_meta n None ''img/22.jpg''"
  by (simp_all add: row_vec_def row_meta_def demo_meta_of_row embed_def demo_env_simps
      demo_encode_def img_path_of_def demo_row_simps)

lemma demo_dup_embeddable: "rows_embeddable demo_env demo_dup_rows"
  by (simp add: rows_embeddable_def embedded_rows_def demo_dup_rows_def demo_row_exists
      demo_embed_row)

lemma demo_dup_build:
  "snd (build_index_inline demo_env demo_dup_rows Map.empty) =
     Inr (run_ops (persist_ops [''sv3-1'', ''sv3-1''] [1, - 1]
            [(''sv3-1'', demo_meta ''Gloom'' None ''img/22.jpg'')])
          Map.empty)"
  unfolding build_ok [OF demo_dup_embeddable]
  by (simp add: embedded_rows_def demo_dup_rows_def demo_row_exists demo_row_simps
      demo_row_vec_meta)

lemma json_load_upd:
  "json_load (fs(META_JSON \<mapsto> a)) = (case a of MetaJson m \<Rightarrow> Inr m | _ \<Rightarrow> Inl JsonLoadFailed)"
  "p \<noteq> META_JSON \<Longrightarrow> json_load (fs(p \<mapsto> a)) = json_load fs"
  by (simp_all add: json_load_def)

lemma persist_crashed_cases:
  "persist_crashed 0 ids vecs meta fs = fs"
  "persist_crashed (Suc 0) ids vecs meta fs = fs(IDS_NPY \<mapsto> IdsNpy ids)"
  "persist_crashed (Suc (Suc 0)) ids vecs meta fs =
     fs(IDS_NPY \<mapsto> IdsNpy ids, META_JSON \<mapsto> HalfWritten)"
  "persist_crashed (Suc (Suc (Suc 0))) ids vecs meta fs =
     fs(IDS_NPY \<mapsto> IdsNpy ids, META_JSON \<mapsto> MetaJson meta)"
  "persist_crashed (Suc (Suc (Suc (Suc k)))) ids vecs meta fs =
     fs(IDS_NPY \<mapsto> IdsNpy ids, META_JSON \<mapsto> MetaJson meta, FAISS_PATH \<mapsto> FaissIndex vecs)"
  by (simp_all add: persist_crashed_def persist_ops_def run_ops_def)

lemma nat_cases5:
  "n = 0 \<or> n = Suc 0 \<or> n = Suc (Suc 0) \<or> n = Suc (Suc (Suc 0)) \<or>
   (\<exists>k. n = Suc (Suc (Suc (Suc k))))"
  by (metis not0_implies_Suc)

lemma load_artifacts_iff:
  "load_artifacts fs = Inr (vecs, ids, meta) \<longleftrightarrow>
     fs FAISS_PATH = Some (FaissIndex vecs) \<and> fs IDS_NPY = Some (IdsNpy ids)
     \<and> fs META_JSON = Some (MetaJson meta)"
  by (auto simp add: load_artifacts_def read_index_def np_load_def json_load_def
      split: option.splits artifact.splits sum.splits)

lemma print_results_none:
  "snd (print_results ids meta res out) = None \<longleftrightarrow> list_all (\<lambda>(d, idx). lookup_ok ids meta idx) res"
  by (induction res arbitrary: out)
     (auto simp add: lookup_ok_def dict_get_def split: sum.splits option.splits)

lemma print_results_keyerror:
  "snd (print_results ids meta res out) = Some (KeyError c) \<Longrightarrow> map_of meta c = None"
  by (induction res arbitrary: out)
     (auto simp add: dict_get_def np_index_def Let_def split: sum.splits option.splits if_splits)

lemma print_results_snd_out:
  "snd (print_results ids meta res out) = snd (print_results ids meta res out')"
  by (induction res arbitrary: out out') (auto split: sum.splits)

lemma print_results_after_ok:
  "list_all (\<lambda>(d, idx). lookup_ok ids meta idx) pre \<Longrightarrow>
   snd (print_results ids meta (pre @ rest) out) = snd (print_results ids meta rest out)"
proof (induction pre arbitrary: out)
  case Nil
  then show ?case by simp
next
  case (Cons x pre)
  obtain d idx where x: "x = (d, idx)" by (cases x)
  have ok: "lookup_ok ids meta idx" and rest: "list_all (\<lambda>(d, idx). lookup_ok ids meta idx) pre"
    using Cons.prems x by simp_all
  obtain c m where c: "np_index ids idx = Inr c" "dict_get meta c = Inr m"
    using ok by (auto simp add: lookup_ok_def dict_get_def split: sum.splits option.splits)
  have "snd (print_results ids meta ((x # pre) @ rest) out) =
        snd (print_results ids meta (pre @ rest)
               (out @ [ResultRow c (meta_name m) d (meta_set m) (meta_number m)]))"
    using x c by simp
  also have "\<dots> = snd (print_results ids meta rest
               (out @ [ResultRow c (meta_name m) d (meta_set m) (meta_number m)]))"
    by (rule Cons.IH [OF rest])
  also have "\<dots> = snd (print_results ids meta rest out)"
    by (rule print_results_snd_out)
  finally show ?case .
qed

lemma print_results_missing_record:
  "list_all (\<lambda>(d, idx). lookup_ok ids meta idx) pre \<Longrightarrow>
   np_index ids idx = Inr c \<Longrightarrow> map_of meta c = None \<Longrightarrow>
   snd (print_results ids meta (pre @ (d, idx) # rest) out) = Some (KeyError c)"
  by (simp add: print_results_after_ok dict_get_def)

lemma demo_corrupt_load:
  "load_artifacts demo_corrupt_fs = Inr ([1, - 1], [''sv3-1'', ''sv3-2''], demo_old_meta)"
  by (simp add: load_artifacts_iff demo_corrupt_fs_def paths_distinct)

lemma demo_search_results:
  "demo_search [1, - 1] 1 1 = [(1, 0)]"
  "demo_search [1, - 1] 1 5 = [(1, 0), (- 1, 1)]"
  by (simp_all add: demo_search_def sort_key_def)

section \<open>Ranking by insertion\<close>

lemma set_insert_ranked: "set (insert_ranked x ys) = insert x (set ys)"
  by (induction ys) auto

lemma length_insert_ranked: "length (insert_ranked x ys) = Suc (length ys)"
  by (induction ys) auto

lemma sorted_insert_ranked:
  "sorted_wrt ranked_before ys \<Longrightarrow> \<forall>y \<in> set ys. fst y < fst x \<Longrightarrow>
   sorted_wrt ranked_before (insert_ranked x ys)"
proof (induction ys)
  case Nil
  then show ?case by simp
next
  case (Cons y ys)
  show ?case
  proof (cases "snd y < snd x")
    case True
    have "\<forall>z \<in> set ys. snd z \<le> snd y"
      using Cons.prems(1) by (auto simp add: ranked_before_def)
    then have "\<forall>z \<in> set (y # ys). ranked_before x z"
      using True by (auto simp add: ranked_before_def)
    then show ?thesis using True Cons.prems(1) by simp
  next
    case False
    have "ranked_before y x"
      using False Cons.prems(2) by (auto simp add: ranked_before_def)
    moreover have "sorted_wrt ranked_before (insert_ranked x ys)"
      using Cons by simp
    ultimately show ?thesis
      using False Cons.prems(1) by (simp add: set_insert_ranked)
  qed
qed

lemma sorted_fold_insert:
  "sorted_wrt ranked_before acc \<Longrightarrow> sorted_wrt (<) (map fst ps) \<Longrightarrow>
   \<forall>a \<in> set acc. \<forall>p \<in> set ps. fst a < fst p \<Longrightarrow>
   sorted_wrt ranked_before (foldl (\<lambda>acc p. insert_ranked p acc) acc ps)"
proof (induction ps arbitrary: acc)
  case Nil
  then show ?case by simp
next
  case (Cons p ps)
  have 1: "sorted_wrt ranked_before (insert_ranked p acc)"
    using Cons.prems by (intro sorted_insert_ranked) auto
  have 2: "sorted_wrt (<) (map fst ps)"
    using Cons.prems(2) by simp
  have 3: "\<forall>a \<in> set (insert_ranked p acc). \<forall>q \<in> set ps. fst a < fst q"
    using Cons.prems(2,3) by (auto simp add: set_insert_ranked)
  show ?case
    using Cons.IH [OF 1 2 3] by simp
qed

lemma length_fold_insert:
  "length (foldl (\<lambda>acc p. insert_ranked p acc) acc ps) = length acc + length ps"
  by (induction ps arbitrary: acc) (simp_all add: length_insert_ranked)

lemma set_fold_insert:
  "set (foldl (\<lambda>acc p. insert_ranked p acc) acc ps) = set acc \<union> set ps"
  by (induction ps arbitrary: acc) (auto simp add: set_insert_ranked)

lemma distinct_insert_ranked:
  "distinct (map fst (insert_ranked x ys)) \<longleftrightarrow>
     fst x \<notin> fst ` set ys \<and> distinct (map fst ys)"
  by (induction ys) (auto simp add: set_insert_ranked)

lemma distinct_fold_insert:
  "distinct (map fst acc) \<Longrightarrow> distinct (map fst ps) \<Longrightarrow>
   fst ` set acc \<inter> fst ` set ps = {} \<Longrightarrow>
   distinct (map fst (foldl (\<lambda>acc p. insert_ranked p acc) acc ps))"
proof (induction ps arbitrary: acc)
  case Nil
  then show ?case by simp
next
  case (Cons p ps)
  have 1: "distinct (map fst (insert_ranked p acc))"
    using Cons.prems by (auto simp add: distinct_insert_ranked)
  have 2: "distinct (map fst ps)"
    using Cons.prems(2) by simp
  have 3: "fst ` set (insert_ranked p acc) \<inter> fst ` set ps = {}"
    using Cons.prems(2,3) by (auto simp add: set_insert_ranked)
  show ?case
    using Cons.IH [OF 1 2 3] by simp
qed

lemma rank_all_sorted:
  "sorted_wrt ranked_before (rank_all (enumerate n xs))"
  unfolding rank_all_def
  by (rule sorted_fold_insert) (simp_all add: map_fst_enumerate)

lemma rank_all_length: "length (rank_all ps) = length ps"
  by (simp add: rank_all_def length_fold_insert)

lemma rank_all_set: "set (rank_all ps) = set ps"
  by (simp add: rank_all_def set_fold_insert)

lemma rank_all_distinct: "distinct (map fst (rank_all (enumerate n xs)))"
  unfolding rank_all_def
  by (rule distinct_fold_insert) (simp_all add: map_fst_enumerate)

lemma vi_search_ok:
  "0 < k \<Longrightarrow> length query = length (hd index) \<Longrightarrow>
   vi_search index query k =
     Inr (take (nat k) (rank_all (enumerate 0 (map (dot query) index))))"
  by (simp add: vi_search_def)

lemma dot_sq_diff:
  "length u = length v \<Longrightarrow>
   sum_list (map (\<lambda>p. (fst p - snd p)\<^sup>2) (zip u v)) = dot u u - 2 * dot u v + dot v v"
  by (induction u v rule: list_induct2) (simp_all add: dot_def power2_eq_square algebra_simps)

lemma sum_sq_diff_nonneg: "0 \<le> sum_list (map (\<lambda>p. (fst p - snd p)\<^sup>2) (zip u (v :: real list)))"
  by (rule sum_list_nonneg) auto

lemma sum_sq_diff_zero:
  "length u = length v \<Longrightarrow>
   sum_list (map (\<lambda>p. (fst p - snd p)\<^sup>2) (zip u (v :: real list))) = 0 \<Longrightarrow> u = v"
proof (induction u v rule: list_induct2)
  case Nil
  then show ?case by simp
next
  case (Cons x xs y ys)
  have "0 \<le> (x - y)\<^sup>2"
    by simp
  moreover note sum_sq_diff_nonneg [of xs ys]
  moreover have "(x - y)\<^sup>2 + sum_list (map (\<lambda>p. (fst p - snd p)\<^sup>2) (zip xs ys)) = 0"
    using Cons.prems by simp
  ultimately have "(x - y)\<^sup>2 = 0" and "sum_list (map (\<lambda>p. (fst p - snd p)\<^sup>2) (zip xs ys)) = 0"
    by linarith+
  then show ?case
    using Cons.IH by simp
qed

lemma dot_unit_le:
  assumes "length u = length v" and "dot u u = 1" and "dot v v = 1"
  shows "dot u v \<le> 1"
  using sum_sq_diff_nonneg [of u v] assms by (simp add: dot_sq_diff)

lemma dot_unit_eq:
  assumes "length u = length v" and "dot u u = 1" and "dot v v = 1" and "dot u v = 1"
  shows "u = v"
proof -
  have "sum_list (map (\<lambda>p. (fst p - snd p)\<^sup>2) (zip u v)) = 0"
    using assms by (simp add: dot_sq_diff)
  then show ?thesis
    using assms(1) by (rule sum_sq_diff_zero [rotated])
qed

lemma demo_index_built: "vi_build demo_index = Inr demo_index"
  by (simp add: vi_build_def demo_index_def)

lemma demo_search_result: "vi_search demo_index [1, 0] 3 = Inr [(0, 1), (1, 0)]"
  by (simp add: vi_search_def rank_all_def dot_def demo_index_def)

section \<open>Missing images and the empty build\<close>

text \<open>
  Claim C5, as stated, says that the whole build fails exactly when zero records
  produced a usable embedding. Nothing in the loop catches an exception: with a
  first row that is embedded and a second row whose image file exists and does not
  decode, the build ends with the exception of the decoder.
\<close>

theorem undecodable_image_aborts_build_counterexample:
  "embed_row demo_env (demo_row ''sv3-1'' ''Oddish'' ''50'' ''img/1.jpg'') =
     Inr (''sv3-1'', 1, demo_meta ''Oddish'' (Some 50) ''img/1.jpg'')
   \<and> snd (build_index_inline demo_env demo_undecodable_rows Map.empty) = Inl ImageEncodeFailed"
  by (simp add: demo_embed_row build_index_inline_def demo_undecodable_rows_def
      build_loop_step demo_row_exists del: build_loop.simps(2))

text \<open>
  Claim C5, amended. When no row with an existing image makes the decoder, the
  encoder or the conversion of the hp cell raise, every catalog row whose image
  path does not exist is skipped and logged (a \<^verbatim>\<open>[skip] missing:\<close> line is printed
  for it) and does not make the build fail: the build fails exactly when no row
  produced an embedding, it then fails with one of the two assertions of the
  source (no rows in the catalog, no vectors built), which are the code's form of
  \<^verbatim>\<open>EmptyCatalog\<close>, and otherwise its result is the one of the build over the rows
  with an image alone. When some row with an existing image makes one of them
  raise, the exception is not caught: the whole build fails with the exception of
  such a row.
\<close>

theorem missing_images_skipped_empty_build_fails:
  "(rows_embeddable env rows \<longrightarrow>
      (\<forall>r \<in> set rows. \<not> path_exists env (img_path_of env r) \<longrightarrow>
         SkipMissing (img_path_of env r) \<in> set (fst (build_index_inline env rows fs)))
    \<and> ((\<exists>e. snd (build_index_inline env rows fs) = Inl e) \<longleftrightarrow>
         embedded_rows env rows = [])
    \<and> (\<forall>e. snd (build_index_inline env rows fs) = Inl e \<longrightarrow>
         e = AssertNoRows \<or> e = AssertNoVectors)
    \<and> (embedded_rows env rows \<noteq> [] \<longrightarrow>
         snd (build_index_inline env rows fs) =
           snd (build_index_inline env (embedded_rows env rows) fs)))
   \<and> (\<not> rows_embeddable env rows \<longrightarrow>
        (\<exists>r \<in> set (embedded_rows env rows). \<exists>e.
           embed_row env r = Inl e \<and> snd (build_index_inline env rows fs) = Inl e))"
proof (intro conjI impI)
  assume e: "rows_embeddable env rows"
  have e': "rows_embeddable env (embedded_rows env rows)"
    using e by (simp add: rows_embeddable_def embedded_rows_def)
  show "\<forall>r \<in> set rows. \<not> path_exists env (img_path_of env r) \<longrightarrow>
       SkipMissing (img_path_of env r) \<in> set (fst (build_index_inline env rows fs))"
    unfolding build_ok [OF e] by (auto simp add: skipped_rows_def)
  show "(\<exists>e. snd (build_index_inline env rows fs) = Inl e) \<longleftrightarrow> embedded_rows env rows = []"
    unfolding build_ok [OF e] by (auto simp add: embedded_rows_def)
  show "\<forall>e. snd (build_index_inline env rows fs) = Inl e \<longrightarrow>
        e = AssertNoRows \<or> e = AssertNoVectors"
    unfolding build_ok [OF e] by (auto split: if_splits)
  show "snd (build_index_inline env rows fs) =
          snd (build_index_inline env (embedded_rows env rows) fs)"
    if "embedded_rows env rows \<noteq> []"
    unfolding build_ok [OF e] build_ok [OF e'] using that
    by (auto simp add: embedded_rows_def)
next
  assume "\<not> rows_embeddable env rows"
  then show "\<exists>r \<in> set (embedded_rows env rows). \<exists>e.
           embed_row env r = Inl e \<and> snd (build_index_inline env rows fs) = Inl e"
    by (rule build_raise)
qed

theorem missing_images_skipped_empty_build_fails_witness:
  "SkipMissing ''img/9.jpg'' \<in>
     set (fst (build_index_inline demo_env
       [demo_row ''a'' ''A'' ''50'' ''img/9.jpg'', demo_row ''b'' ''B'' ''x'' ''img/22.jpg'']
       Map.empty))
   \<and> (\<exists>s. snd (build_index_inline demo_env
       [demo_row ''a'' ''A'' ''50'' ''img/9.jpg'', demo_row ''b'' ''B'' ''x'' ''img/22.jpg'']
       Map.empty) = Inr s)
   \<and> (\<exists>e. snd (build_index_inline demo_env
       [demo_row ''a'' ''A'' ''50'' ''img/9.jpg''] Map.empty) = Inl e)
   \<and> (\<exists>e. snd (build_index_inline demo_env demo_undecodable_rows Map.empty) = Inl e)"
proof -
  let ?a = "demo_row ''a'' ''A'' ''50'' ''img/9.jpg''"
  let ?b = "demo_row ''b'' ''B'' ''x'' ''img/22.jpg''"
  have e1: "rows_embeddable demo_env [?a, ?b]"
    by (simp add: rows_embeddable_def embedded_rows_def demo_row_exists demo_embed_row)
  have e2: "rows_embeddable demo_env [?a]"
    by (simp add: rows_embeddable_def embedded_rows_def demo_row_exists)
  have e3: "\<not> rows_embeddable demo_env demo_undecodable_rows"
    by (simp add: rows_embeddable_def embedded_rows_def demo_undecodable_rows_def
        demo_row_exists demo_embed_row)
  have E1: "embedded_rows demo_env [?a, ?b] \<noteq> []"
    by (simp add: embedded_rows_def demo_row_exists)
  have E2: "embedded_rows demo_env [?a] = []"
    by (simp add: embedded_rows_def demo_row_exists)
  have p: "img_path_of demo_env ?a = ''img/9.jpg''"
    by (simp add: img_path_of_def demo_env_simps demo_row_simps)
  note t1 = missing_images_skipped_empty_build_fails
    [of demo_env "[?a, ?b]" Map.empty, THEN conjunct1, THEN mp, OF e1]
  note t2 = missing_images_skipped_empty_build_fails
    [of demo_env "[?a]" Map.empty, THEN conjunct1, THEN mp, OF e2]
  note t3 = missing_images_skipped_empty_build_fails
    [of demo_env demo_undecodable_rows Map.empty, THEN conjunct2, THEN mp, OF e3]
  have "?a \<in> set [?a, ?b]"
    by simp
  then have c1: "SkipMissing ''img/9.jpg'' \<in>
      set (fst (build_index_inline demo_env [?a, ?b] Map.empty))"
    using t1 [THEN conjunct1] demo_row_exists(4) [of "''a''" "''A''" "''50''"] p by metis
  have "\<not> (\<exists>e. snd (build_index_inline demo_env [?a, ?b] Map.empty) = Inl e)"
    using t1 [THEN conjunct2, THEN conjunct1] E1 by simp
  then have c2: "\<exists>s. snd (build_index_inline demo_env [?a, ?b] Map.empty) = Inr s"
    by (cases "snd (build_index_inline demo_env [?a, ?b] Map.empty)") auto
  have c3: "\<exists>e. snd (build_index_inline demo_env [?a] Map.empty) = Inl e"
    using t2 [THEN conjunct2, THEN conjunct1] E2 by simp
  have c4: "\<exists>e. snd (build_index_inline demo_env demo_undecodable_rows Map.empty) = Inl e"
    using t3 by blast
  show ?thesis
    using c1 c2 c3 c4 by (intro conjI)
qed

section \<open>Counts of the persisted artifacts\<close>

text \<open>
  Claim C4, as stated, says that after a successful build the id sequence, the
  vector matrix and the metadata mapping have the same number of entries. It fails
  on a catalog in which two rows with an image carry the same id: the build stores
  two ids and two vectors and one metadata entry.
\<close>

theorem artifact_counts_differ_counterexample:
  "map_sum id artifact_counts
     (snd (build_index_inline demo_env demo_dup_rows Map.empty)) =
   Inr (Some (2, 2, 1))"
  by (simp add: demo_dup_build artifact_counts_def loads_after_persist)

text \<open>
  Claim C4, amended. After every successful build the id sequence and the vector
  matrix have the same length, every id of the id sequence has a metadata record,
  and the number of metadata entries is the number of distinct ids of the id
  sequence: it is at most the length of the id sequence and equals it exactly when
  the ids of the embedded rows are pairwise distinct.
\<close>

theorem artifact_counts_after_build:
  assumes "snd (build_index_inline env rows fs) = Inr fs'"
  shows "\<exists>ids vecs meta.
           np_load fs' = Inr ids \<and> read_index fs' = Inr vecs \<and> json_load fs' = Inr meta
         \<and> length ids = length vecs
         \<and> (\<forall>c \<in> set ids. map_of meta c \<noteq> None)
         \<and> length meta = card (set ids)
         \<and> length meta \<le> length ids
         \<and> (length meta = length ids \<longleftrightarrow> distinct ids)"
proof -
  let ?E = "embedded_rows env rows"
  let ?ids = "map id_col ?E"
  let ?vecs = "map (row_vec env) ?E"
  let ?meta = "fold (\<lambda>r. AList.update (id_col r) (row_meta env r)) ?E []"
  have d: "distinct (map fst ?meta)"
    by (rule fold_update_distinct) simp
  have keys: "fst ` set ?meta = set ?ids"
    by (simp add: fold_update_keys)
  have len: "length ?meta = card (set ?ids)"
    using alist_length_card [OF d] keys by simp
  have has: "\<forall>c \<in> set ?ids. map_of ?meta c \<noteq> None"
    unfolding map_of_eq_None_iff keys by simp
  have le: "length ?meta \<le> length ?ids"
    unfolding len by (rule card_length)
  have iff: "length ?meta = length ?ids \<longleftrightarrow> distinct ?ids"
    unfolding len by (blast intro: card_distinct distinct_card)
  have lv: "length ?ids = length ?vecs"
    by simp
  have "np_load fs' = Inr ?ids \<and> read_index fs' = Inr ?vecs \<and> json_load fs' = Inr ?meta
         \<and> length ?ids = length ?vecs
         \<and> (\<forall>c \<in> set ?ids. map_of ?meta c \<noteq> None)
         \<and> length ?meta = card (set ?ids)
         \<and> length ?meta \<le> length ?ids
         \<and> (length ?meta = length ?ids \<longleftrightarrow> distinct ?ids)"
    using build_success_artifacts [OF assms] lv has len le iff by simp
  then show ?thesis by (intro exI)
qed

theorem artifact_counts_after_build_witness:
  "\<exists>ids vecs meta.
     np_load (run_ops (persist_ops [''sv3-1'', ''sv3-1''] [1, - 1 :: int]
            [(''sv3-1'', demo_meta ''Gloom'' None ''img/22.jpg'')])
          Map.empty) = Inr ids
   \<and> read_index (run_ops (persist_ops [''sv3-1'', ''sv3-1''] [1, - 1 :: int]
            [(''sv3-1'', demo_meta ''Gloom'' None ''img/22.jpg'')])
          Map.empty) = Inr vecs
   \<and> json_load (run_ops (persist_ops [''sv3-1'', ''sv3-1''] [1, - 1 :: int]
            [(''sv3-1'', demo_meta ''Gloom'' None ''img/22.jpg'')])
          Map.empty) = Inr meta
   \<and> length ids = length vecs \<and> length meta = card (set ids) \<and> length meta \<le> length ids"
  using artifact_counts_after_build [OF demo_dup_build] by blast

section \<open>Two rows with the same card id\<close>

text \<open>
  Claim C10, as stated, says that the build completes without error whenever two
  rows with existing images carry the same card id. It does not when the image of
  one of them exists and does not decode: the exception of the decoder ends the
  build.
\<close>

theorem duplicate_ids_undecodable_image_counterexample:
  "id_col (demo_dup_undecodable_rows ! 0) = id_col (demo_dup_undecodable_rows ! 1)
   \<and> path_exists demo_env (img_path_of demo_env (demo_dup_undecodable_rows ! 0))
   \<and> path_exists demo_env (img_path_of demo_env (demo_dup_undecodable_rows ! 1))
   \<and> snd (build_index_inline demo_env demo_dup_undecodable_rows Map.empty) =
       Inl ImageEncodeFailed"
  by (simp add: build_index_inline_def demo_dup_undecodable_rows_def build_loop_step
      demo_row_exists demo_embed_row demo_row_simps del: build_loop.simps(2))

text \<open>
  Claim C10, amended. When two different rows of the catalog carry the same card id
  and both have an existing image, and no row with an existing image makes the
  decoder, the encoder or the conversion of the hp cell raise, the build completes
  without error; it stores one id and one vector per row with an image (so both
  rows are in the id sequence), the metadata mapping has exactly one entry for
  that id, which is the metadata of the last such row, and the metadata mapping is
  strictly shorter than the id sequence.
\<close>

theorem duplicate_ids_keep_one_metadata_entry:
  assumes "i < j" and "j < length rows"
    and "id_col (rows ! i) = id_col (rows ! j)"
    and "path_exists env (img_path_of env (rows ! i))"
    and "path_exists env (img_path_of env (rows ! j))"
    and "rows_embeddable env rows"
  shows "\<exists>fs' vecs meta m.
           snd (build_index_inline env rows fs) = Inr fs'
         \<and> np_load fs' = Inr (map id_col (embedded_rows env rows))
         \<and> read_index fs' = Inr vecs
         \<and> map Inr vecs = map (\<lambda>r. embed env (img_path_of env r)) (embedded_rows env rows)
         \<and> json_load fs' = Inr meta
         \<and> length (filter (\<lambda>e. fst e = id_col (rows ! j)) meta) = 1
         \<and> meta_of_row env
               (last (filter (\<lambda>r. id_col r = id_col (rows ! j)) (embedded_rows env rows))) =
             Inr m
         \<and> map_of meta (id_col (rows ! j)) = Some m
         \<and> length meta < length (map id_col (embedded_rows env rows))"
proof -
  let ?E = "embedded_rows env rows"
  let ?ids = "map id_col ?E"
  let ?vecs = "map (row_vec env) ?E"
  let ?c = "id_col (rows ! j)"
  let ?meta = "fold (\<lambda>r. AList.update (id_col r) (row_meta env r)) ?E []"
  let ?last = "last (filter (\<lambda>r. id_col r = ?c) ?E)"
  have jE: "rows ! j \<in> set ?E"
    using assms by (simp add: embedded_rows_def)
  then have ne: "?E \<noteq> []" "rows \<noteq> []"
    using assms by auto
  obtain fs' where fs': "snd (build_index_inline env rows fs) = Inr fs'"
    using ne by (simp add: build_ok [OF assms(6)])
  have rowE: "\<not> isl (embed_row env r)" if "r \<in> set ?E" for r
    using assms(6) that by (simp add: rows_embeddable_def list_all_iff)
  have "map (\<lambda>r. Inr (row_vec env r)) ?E = map (\<lambda>r. embed env (img_path_of env r)) ?E"
    using embed_row_Inr [OF rowE] by (intro map_cong) simp_all
  then have vecs: "map Inr ?vecs = map (\<lambda>r. embed env (img_path_of env r)) ?E"
    by (simp add: comp_def)
  have d: "distinct (map fst ?meta)"
    by (rule fold_update_distinct) simp
  have keys: "fst ` set ?meta = set ?ids"
    by (simp add: fold_update_keys)
  have c_in: "?c \<in> fst ` set ?meta"
    unfolding keys using jE by simp
  have one: "length (filter (\<lambda>e. fst e = ?c) ?meta) = 1"
    using d c_in by (rule alist_single_entry)
  have fne: "filter (\<lambda>r. id_col r = ?c) ?E \<noteq> []"
    using jE by (auto simp add: filter_empty_conv)
  then have lastw: "map_of ?meta ?c = Some (row_meta env ?last)"
    by (simp add: fold_update_last)
  have "?last \<in> set (filter (\<lambda>r. id_col r = ?c) ?E)"
    using fne by (rule last_in_set)
  then have "?last \<in> set ?E"
    by simp
  then have lastm: "meta_of_row env ?last = Inr (row_meta env ?last)"
    using embed_row_Inr [OF rowE] by simp
  have nd: "\<not> distinct ?ids"
    unfolding embedded_rows_def
    using dup_in_filtered [of i j rows "\<lambda>r. path_exists env (img_path_of env r)" id_col]
      assms(1-5) by simp
  have "length ?meta = card (set ?ids)"
    using alist_length_card [OF d] keys by simp
  moreover have "card (set ?ids) \<le> length ?ids"
    by (rule card_length)
  moreover have "card (set ?ids) \<noteq> length ?ids"
    using nd card_distinct by blast
  ultimately have lt: "length ?meta < length ?ids"
    by linarith
  have "snd (build_index_inline env rows fs) = Inr fs'
         \<and> np_load fs' = Inr ?ids
         \<and> read_index fs' = Inr ?vecs
         \<and> map Inr ?vecs = map (\<lambda>r. embed env (img_path_of env r)) ?E
         \<and> json_load fs' = Inr ?meta
         \<and> length (filter (\<lambda>e. fst e = ?c) ?meta) = 1
         \<and> meta_of_row env ?last = Inr (row_meta env ?last)
         \<and> map_of ?meta ?c = Some (row_meta env ?last)
         \<and> length ?meta < length ?ids"
    using fs' build_success_artifacts [OF fs'] vecs one lastm lastw lt by simp
  then show ?thesis by (intro exI)
qed

theorem duplicate_ids_keep_one_metadata_entry_witness:
  "\<exists>fs' meta.
     snd (build_index_inline demo_env demo_dup_rows Map.empty) = Inr fs'
   \<and> np_load fs' = Inr [''sv3-1'', ''sv3-1'']
   \<and> json_load fs' = Inr meta
   \<and> map_of meta ''sv3-1'' = Some (demo_meta ''Gloom'' None ''img/22.jpg'')
   \<and> length meta < 2"
  using duplicate_ids_keep_one_metadata_entry
    [of 0 1 demo_dup_rows demo_env Map.empty] demo_dup_embeddable
  by (auto simp add: demo_dup_rows_def demo_row_exists demo_row_simps embedded_rows_def
      demo_meta_of_row)

section \<open>Building twice\<close>

text \<open>
  Claim C9. For every catalog and every deterministic embedding generator, a second
  run of the build on the same catalog leaves the same persisted artifacts as the
  first: started on the file system that the first run left, the build prints the
  same lines and leaves every file as it was; and started on any other file system
  \<open>fs0\<close>, it succeeds and the id sequence, the vector matrix and the metadata
  mapping it writes are those of the first run.
\<close>

theorem rebuild_gives_identical_artifacts:
  assumes "snd (build_index_inline env rows fs) = Inr fs1"
  shows "build_index_inline env rows fs1 = (fst (build_index_inline env rows fs), Inr fs1)
       \<and> (\<exists>fs2. snd (build_index_inline env rows fs0) = Inr fs2
             \<and> np_load fs2 = np_load fs1 \<and> read_index fs2 = read_index fs1
             \<and> json_load fs2 = json_load fs1)"
proof -
  note e = build_success(1) [OF assms]
  note ne = build_success(2) [OF assms]
  note eq = build_success(3) [OF assms]
  have rows: "rows \<noteq> []"
    using ne by (auto simp add: embedded_rows_def)
  have again: "snd (build_index_inline env rows fs1) = Inr fs1"
    unfolding build_ok [OF e] using ne rows by (simp add: eq persist_twice)
  have out: "fst (build_index_inline env rows fs1) = fst (build_index_inline env rows fs)"
    unfolding build_ok [OF e] by simp
  have first: "build_index_inline env rows fs1 =
      (fst (build_index_inline env rows fs), Inr fs1)"
    using again out by (metis prod.collapse)
  obtain fs2 where fs2: "snd (build_index_inline env rows fs0) = Inr fs2"
    unfolding build_ok [OF e] using ne rows by simp
  have "np_load fs2 = np_load fs1 \<and> read_index fs2 = read_index fs1 \<and> json_load fs2 = json_load fs1"
    using build_success_artifacts [OF fs2] build_success_artifacts [OF assms] by simp
  then show ?thesis using first fs2 by blast
qed

theorem rebuild_gives_identical_artifacts_witness:
  "snd (build_index_inline demo_env demo_dup_rows
      (run_ops (persist_ops [''sv3-1'', ''sv3-1''] [1, - 1 :: int]
            [(''sv3-1'', demo_meta ''Gloom'' None ''img/22.jpg'')])
          Map.empty)) =
     Inr (run_ops (persist_ops [''sv3-1'', ''sv3-1''] [1, - 1 :: int]
            [(''sv3-1'', demo_meta ''Gloom'' None ''img/22.jpg'')])
          Map.empty)"
  using rebuild_gives_identical_artifacts [OF demo_dup_build, of demo_old_fs]
  by (metis snd_conv)

section \<open>Saving the metadata\<close>

text \<open>
  Claim C6, as stated, says that the metadata is written to a temporary location
  and renamed into place, so that a crash during the save leaves the prior store
  intact. The source opens the target file itself for writing: a crash after the
  second write step leaves a store that does not decode, where the prior store
  decoded.
\<close>

theorem metadata_save_not_atomic_counterexample:
  "json_load demo_old_fs = Inr demo_old_meta
   \<and> json_load (persist_crashed 2 [''sv3-2''] [- 1] demo_new_meta demo_old_fs) = Inl JsonLoadFailed"
  by (simp add: numeral_2_eq_2 persist_crashed_cases json_load_upd paths_distinct demo_old_fs_def)

text \<open>
  Claim C6, amended. The build writes the metadata directly into its target path
  and writes no path other than the three artifact paths (no temporary file, no
  rename). A crash before the file is opened leaves the prior metadata; a crash
  between the opening of the file and the end of \<^verbatim>\<open>json.dump\<close> leaves a store that
  does not decode, and the prior contents are lost; once \<^verbatim>\<open>json.dump\<close> has
  completed the store holds the new mapping.
\<close>

theorem metadata_saved_in_place:
  "(p \<notin> {IDS_NPY, META_JSON, FAISS_PATH} \<longrightarrow> persist_crashed n ids vecs meta fs p = fs p)
   \<and> json_load (persist_crashed n ids vecs meta fs) =
       (if n \<le> 1 then json_load fs else if n = 2 then Inl JsonLoadFailed else Inr meta)"
  using nat_cases5 [of n]
  by (elim disjE exE)
     (simp_all add: persist_crashed_cases json_load_upd paths_distinct numeral_2_eq_2)

theorem metadata_saved_in_place_witness:
  "persist_crashed 2 [''sv3-2''] [- 1] demo_new_meta demo_old_fs ''data/catalog/cards.csv'' = None
   \<and> json_load (persist_crashed 4 [''sv3-2''] [- 1] demo_new_meta demo_old_fs) = Inr demo_new_meta"
  using metadata_saved_in_place [of "''data/catalog/cards.csv''" 2 "[''sv3-2'']" "[- 1]" demo_new_meta demo_old_fs]
    metadata_saved_in_place [of "''data/catalog/cards.csv''" 4 "[''sv3-2'']" "[- 1]" demo_new_meta demo_old_fs]
  by (simp add: IDS_NPY_def META_JSON_def FAISS_PATH_def demo_old_fs_def)

section \<open>Loading artifacts that disagree\<close>

text \<open>
  Claim C7, as stated, says that loading fails when the id sequence length
  disagrees with the vector count, and in particular when one id was removed from
  the metadata artifact. The source loads the three files one after the other and
  compares nothing: with the metadata of one card removed, and also with an id
  sequence shorter than the vector matrix, the load succeeds, and the
  identification of the first catalog image with one result asked for prints the
  best match and ends without an error.
\<close>

theorem load_without_metadata_succeeds_counterexample:
  "load_artifacts demo_corrupt_fs = Inr ([1, - 1], [''sv3-1'', ''sv3-2''], demo_old_meta)
   \<and> length demo_old_meta = 1
   \<and> load_artifacts (demo_corrupt_fs(IDS_NPY \<mapsto> IdsNpy [''sv3-1''])) =
       Inr ([1, - 1], [''sv3-1''], demo_old_meta)
   \<and> identify_first_image_inline demo_search demo_env
       [demo_row ''sv3-1'' ''Oddish'' ''50'' ''img/1.jpg''] demo_corrupt_fs 1 =
     ([QueryImage ''img/1.jpg'', TopResults, ResultRow ''sv3-1'' ''Oddish'' 1 ''sv3'' ''1''], None)"
proof (intro conjI)
  show "load_artifacts demo_corrupt_fs = Inr ([1, - 1], [''sv3-1'', ''sv3-2''], demo_old_meta)"
    by (rule demo_corrupt_load)
  show "length demo_old_meta = 1"
    by (simp add: demo_old_meta_def)
  show "load_artifacts (demo_corrupt_fs(IDS_NPY \<mapsto> IdsNpy [''sv3-1''])) =
       Inr ([1, - 1], [''sv3-1''], demo_old_meta)"
    by (simp add: load_artifacts_iff demo_corrupt_fs_def paths_distinct)
  have p: "img_path_of demo_env (demo_row ''sv3-1'' ''Oddish'' ''50'' ''img/1.jpg'') = ''img/1.jpg''"
    by (simp add: img_path_of_def demo_env_simps demo_row_simps)
  have q: "embed demo_env ''img/1.jpg'' = Inr 1"
    by (simp add: embed_def demo_env_simps demo_encode_def)
  have m: "dict_get demo_old_meta ''sv3-1'' = Inr (demo_meta ''Oddish'' (Some 50) ''img/1.jpg'')"
    by (simp add: dict_get_def demo_old_meta_def)
  have i: "np_index [''sv3-1'', ''sv3-2''] 0 = Inr ''sv3-1''"
    by (simp add: np_index_def)
  show "identify_first_image_inline demo_search demo_env
       [demo_row ''sv3-1'' ''Oddish'' ''50'' ''img/1.jpg''] demo_corrupt_fs 1 =
     ([QueryImage ''img/1.jpg'', TopResults, ResultRow ''sv3-1'' ''Oddish'' 1 ''sv3'' ''1''], None)"
    unfolding identify_first_image_inline_def demo_corrupt_load
    by (simp add: p q demo_search_results m i demo_meta_def)
qed

text \<open>
  Claim C7, amended. Loading succeeds exactly when each of the three artifacts
  decodes, whatever their lengths and keys; in particular it fails whenever the
  metadata is not decodable. A metadata artifact that lacks an id is detected only
  when a search result is resolved: the printing of the results ends without an
  error exactly when every returned position is in range and its id has a metadata
  record; when the first result that cannot be resolved is a position in range
  whose id has no metadata record, the printing ends with \<^verbatim>\<open>KeyError\<close> of that
  id; and when it ends with \<^verbatim>\<open>KeyError\<close> the id it names has no metadata record.
\<close>

theorem load_checks_decodability_only:
  "(load_artifacts fs = Inr (vecs, ids, meta) \<longleftrightarrow>
      fs FAISS_PATH = Some (FaissIndex vecs) \<and> fs IDS_NPY = Some (IdsNpy ids)
      \<and> fs META_JSON = Some (MetaJson meta))
   \<and> ((\<forall>m. fs META_JSON \<noteq> Some (MetaJson m)) \<longrightarrow> (\<exists>e. load_artifacts fs = Inl e))
   \<and> (snd (print_results ids meta res out) = None \<longleftrightarrow>
        list_all (\<lambda>(d, idx). lookup_ok ids meta idx) res)
   \<and> (list_all (\<lambda>(d, idx). lookup_ok ids meta idx) pre \<and> np_index ids idx = Inr c
        \<and> map_of meta c = None \<longrightarrow>
        snd (print_results ids meta (pre @ (d, idx) # rest) out) = Some (KeyError c))
   \<and> (snd (print_results ids meta res out) = Some (KeyError c) \<longrightarrow> map_of meta c = None)"
proof (intro conjI)
  show "load_artifacts fs = Inr (vecs, ids, meta) \<longleftrightarrow>
      fs FAISS_PATH = Some (FaissIndex vecs) \<and> fs IDS_NPY = Some (IdsNpy ids)
      \<and> fs META_JSON = Some (MetaJson meta)"
    by (rule load_artifacts_iff)
  show "(\<forall>m. fs META_JSON \<noteq> Some (MetaJson m)) \<longrightarrow> (\<exists>e. load_artifacts fs = Inl e)"
  proof
    assume a: "\<forall>m. fs META_JSON \<noteq> Some (MetaJson m)"
    show "\<exists>e. load_artifacts fs = Inl e"
    proof (cases "load_artifacts fs")
      case (Inl e)
      then show ?thesis by blast
    next
      case (Inr t)
      obtain v i m where "t = (v, i, m)" by (cases t) auto
      with Inr a show ?thesis by (simp add: load_artifacts_iff)
    qed
  qed
  show "snd (print_results ids meta res out) = None \<longleftrightarrow>
        list_all (\<lambda>(d, idx). lookup_ok ids meta idx) res"
    by (rule print_results_none)
  show "list_all (\<lambda>(d, idx). lookup_ok ids meta idx) pre \<and> np_index ids idx = Inr c
        \<and> map_of meta c = None \<longrightarrow>
        snd (print_results ids meta (pre @ (d, idx) # rest) out) = Some (KeyError c)"
  proof (intro impI, elim conjE)
    assume "list_all (\<lambda>(d, idx). lookup_ok ids meta idx) pre"
      and "np_index ids idx = Inr c" and "map_of meta c = None"
    then show "snd (print_results ids meta (pre @ (d, idx) # rest) out) = Some (KeyError c)"
      by (rule print_results_missing_record)
  qed
  show "snd (print_results ids meta res out) = Some (KeyError c) \<longrightarrow> map_of meta c = None"
    using print_results_keyerror by blast
qed

theorem load_checks_decodability_only_witness:
  "(\<exists>e. load_artifacts (demo_corrupt_fs(META_JSON \<mapsto> HalfWritten)) = Inl e)
   \<and> snd (print_results [''sv3-1'', ''sv3-2''] demo_old_meta
            (demo_search [1, - 1] 1 5) [QueryImage ''img/1.jpg'', TopResults]) =
       Some (KeyError ''sv3-2'')"
proof -
  have ok: "list_all (\<lambda>(d, idx). lookup_ok [''sv3-1'', ''sv3-2''] demo_old_meta idx) [(1 :: int, 0)]"
    by (simp add: lookup_ok_def np_index_def demo_old_meta_def)
  have i: "np_index [''sv3-1'', ''sv3-2''] 1 = Inr ''sv3-2''"
    by (simp add: np_index_def)
  have m: "map_of demo_old_meta ''sv3-2'' = None"
    by (simp add: demo_old_meta_def)
  have h: "\<forall>m. (demo_corrupt_fs(META_JSON \<mapsto> HalfWritten)) META_JSON \<noteq> Some (MetaJson m)"
    by simp
  note t = load_checks_decodability_only
    [where fs = "demo_corrupt_fs(META_JSON \<mapsto> HalfWritten)"
       and ids = "[''sv3-1'', ''sv3-2'']" and meta = demo_old_meta
       and pre = "[(1 :: int, 0)]" and d = "- 1" and idx = 1 and rest = "[]"
       and out = "[QueryImage ''img/1.jpg'', TopResults]" and c = "''sv3-2''"]
  have 1: "\<exists>e. load_artifacts (demo_corrupt_fs(META_JSON \<mapsto> HalfWritten)) = Inl e"
    using t [THEN conjunct2, THEN conjunct1] h by blast
  have 2: "snd (print_results [''sv3-1'', ''sv3-2''] demo_old_meta
            ([(1 :: int, 0)] @ (- 1, 1) # []) [QueryImage ''img/1.jpg'', TopResults]) =
       Some (KeyError ''sv3-2'')"
    using t [THEN conjunct2, THEN conjunct2, THEN conjunct2, THEN conjunct1] ok i m by blast
  show ?thesis
    using 1 2 by (simp add: demo_search_results)
qed

section \<open>Search of the Vector Index\<close>

text \<open>
  Claim C1. For every built index and every query vector of matching dimension
  (and every positive \<open>k\<close>), search succeeds and its (position, score) pairs are
  sorted by non-increasing score; whenever two results have equal scores, the one
  with the lower original insertion position comes first.
\<close>

theorem search_sorted_ties_by_position:
  assumes "vi_build vectors = Inr index" and "length query = length (hd index)" and "0 < k"
  shows "\<exists>res. vi_search index query k = Inr res
     \<and> (\<forall>i j. i < j \<longrightarrow> j < length res \<longrightarrow>
           snd (res ! j) \<le> snd (res ! i)
         \<and> (snd (res ! i) = snd (res ! j) \<longrightarrow> fst (res ! i) < fst (res ! j)))"
proof -
  let ?res = "take (nat k) (rank_all (enumerate 0 (map (dot query) index)))"
  have "sorted_wrt ranked_before ?res"
    by (rule sorted_wrt_take) (rule rank_all_sorted)
  then have "\<forall>i j. i < j \<longrightarrow> j < length ?res \<longrightarrow> ranked_before (?res ! i) (?res ! j)"
    by (simp only: sorted_wrt_iff_nth_less)
  then have "\<forall>i j. i < j \<longrightarrow> j < length ?res \<longrightarrow>
           snd (?res ! j) \<le> snd (?res ! i)
         \<and> (snd (?res ! i) = snd (?res ! j) \<longrightarrow> fst (?res ! i) < fst (?res ! j))"
    unfolding ranked_before_def by fastforce
  then show ?thesis
    using vi_search_ok [OF assms(3,2)] by blast
qed

theorem search_sorted_ties_by_position_witness:
  "\<exists>res. vi_search [[1, 0], [0, 1], [1, 0]] [1, 0] 2 = Inr res
     \<and> snd (res ! 1) \<le> snd (res ! 0)
     \<and> fst (res ! 0) < fst (res ! 1)"
proof -
  have b: "vi_build [[1, 0], [0, 1], [1, 0]] = Inr [[1, 0], [0, 1], [1, 0]]"
    by (simp add: vi_build_def)
  have r: "vi_search [[1, 0], [0, 1], [1, 0]] [1, 0] 2 = Inr [(0, 1), (2, 1)]"
    by (simp add: vi_search_def rank_all_def dot_def)
  show ?thesis
    using search_sorted_ties_by_position [OF b, of "[1, 0]" 2] r by auto
qed

text \<open>
  Claim C2. For every index holding \<open>N\<close> vectors and every positive integer \<open>k\<close>,
  search returns exactly \<open>min k N\<close> results: with \<open>k\<close> above \<open>N\<close> it returns
  \<open>N\<close> results and does not fail. Each result is a position below \<open>N\<close> with the
  score of the vector stored there, and no position occurs twice.
\<close>

theorem search_returns_min_k_n:
  assumes "vi_build vectors = Inr index" and "length query = length (hd index)" and "0 < k"
  shows "\<exists>res. vi_search index query k = Inr res
     \<and> length res = min (nat k) (length vectors)
     \<and> (\<forall>r \<in> set res. fst r < length vectors \<and> snd r = dot query (vectors ! fst r))
     \<and> distinct (map fst res)"
proof -
  let ?all = "rank_all (enumerate 0 (map (dot query) index))"
  let ?res = "take (nat k) ?all"
  have iv: "index = vectors"
    using assms(1) by (simp add: vi_build_def split: if_splits)
  have len: "length ?res = min (nat k) (length index)"
    by (simp add: rank_all_length)
  have "set ?res \<subseteq> set (enumerate 0 (map (dot query) index))"
    using set_take_subset [of "nat k" ?all] by (simp add: rank_all_set)
  then have mem: "\<forall>r \<in> set ?res. fst r < length index \<and> snd r = dot query (index ! fst r)"
    by (auto simp add: in_set_enumerate_eq)
  have "distinct (take (nat k) (map fst ?all))"
    by (rule distinct_take) (rule rank_all_distinct)
  then have d: "distinct (map fst ?res)"
    by (simp add: take_map)
  show ?thesis
    using vi_search_ok [OF assms(3,2)] len mem d unfolding iv by blast
qed

theorem search_returns_min_k_n_witness:
  "\<exists>res. vi_search demo_index [1, 0] 3 = Inr res \<and> length res = 2"
  using search_returns_min_k_n [OF demo_index_built, of "[1, 0]" 3]
  by (auto simp add: demo_index_def)

text \<open>
  Claim C3. For every non-empty index of unit vectors and every unit vector \<open>v\<close>
  stored in it, search of \<open>v\<close> with \<open>k\<close> at least 1 returns at rank 1 the
  position of \<open>v\<close> (the first position that holds \<open>v\<close>) with score exactly 1.
  The scores are the exact inner products of the model.
\<close>

theorem search_finds_stored_vector_first:
  assumes "vi_build vectors = Inr index"
    and "\<forall>w \<in> set vectors. unit_vector w"
    and "v \<in> set vectors"
    and "0 < k"
  shows "\<exists>p s rest. vi_search index v k = Inr ((p, s) # rest)
     \<and> s = 1 \<and> p < length vectors \<and> vectors ! p = v \<and> (\<forall>q < p. vectors ! q \<noteq> v)"
proof -
  let ?all = "rank_all (enumerate 0 (map (dot v) index))"
  have iv: "index = vectors"
    using assms(1) by (simp add: vi_build_def split: if_splits)
  have "\<not> list_ex (\<lambda>w. length w \<noteq> length (hd vectors)) vectors"
    using assms(1) by (simp add: vi_build_def split: if_splits)
  then have dims: "\<forall>w \<in> set index. length w = length (hd index)"
    unfolding iv by (simp add: list_ex_iff)
  have vin: "v \<in> set index" and units: "\<forall>w \<in> set index. unit_vector w"
    using assms(2,3) iv by simp_all
  have lv: "length v = length (hd index)"
    using dims vin by blast
  have res: "vi_search index v k = Inr (take (nat k) ?all)"
    using assms(4) lv by (rule vi_search_ok)
  have "length ?all = length index"
    by (simp add: rank_all_length)
  moreover have "index \<noteq> []"
    using vin by auto
  ultimately obtain h t where all: "?all = h # t"
    by (cases ?all) auto
  have mem: "x \<in> set ?all \<longleftrightarrow>
      fst x < length index \<and> snd x = dot v (index ! fst x)" for x
    by (auto simp add: rank_all_set in_set_enumerate_eq)
  have before: "\<forall>x \<in> set t. ranked_before h x"
    using rank_all_sorted [of 0 "map (dot v) index"] all by simp
  have hp: "fst h < length index" and hs: "snd h = dot v (index ! fst h)"
    using mem [of h] all by simp_all
  have le1: "dot v w \<le> 1" and eq1: "dot v w = 1 \<Longrightarrow> w = v" if "w \<in> set index" for w
  proof -
    have l: "length v = length w" and u: "dot v v = 1" "dot w w = 1"
      using that dims units vin lv by (simp_all add: unit_vector_def)
    show "dot v w \<le> 1"
      using dot_unit_le [OF l u] .
    show "w = v" if "dot v w = 1"
      using dot_unit_eq [OF l u that] by simp
  qed
  obtain p where p: "p < length index" "index ! p = v"
    using vin by (auto simp add: in_set_conv_nth)
  have stored: "(q, 1) \<in> set ?all" if "q < length index" "index ! q = v" for q
    using that units vin by (simp add: mem unit_vector_def)
  have top: "snd h = 1"
  proof (cases "h = (p, 1)")
    case True
    then show ?thesis by simp
  next
    case False
    then have "(p, 1) \<in> set t"
      using stored [OF p] all by auto
    then have "ranked_before h (p, 1)"
      using before by blast
    moreover have "snd h \<le> 1"
      unfolding hs using hp by (intro le1) simp
    ultimately show ?thesis
      by (auto simp add: ranked_before_def)
  qed
  have hv: "index ! fst h = v"
    using top hs hp by (intro eq1) simp_all
  have first: "\<forall>q < fst h. index ! q \<noteq> v"
  proof (intro allI impI notI)
    fix q
    assume q: "q < fst h" "index ! q = v"
    then have "(q, 1) \<in> set ?all"
      using hp by (intro stored) simp_all
    moreover have "(q, 1) \<noteq> h"
      using q(1) by auto
    ultimately have "ranked_before h (q, 1)"
      using before all by auto
    then show False
      using top q(1) by (simp add: ranked_before_def)
  qed
  have "take (nat k) ?all = h # take (nat k - 1) t"
    using assms(4) all by (cases "nat k") simp_all
  then have "vi_search index v k = Inr ((fst h, snd h) # take (nat k - 1) t)"
    using res by simp
  then show ?thesis
    using top hp hv first unfolding iv by blast
qed

theorem search_finds_stored_vector_first_witness:
  "\<exists>p s rest. vi_search demo_index [0, 1] 1 = Inr ((p, s) # rest)
     \<and> s = 1 \<and> demo_index ! p = [0, 1]"
proof -
  have u: "\<forall>w \<in> set demo_index. unit_vector w"
    by (simp add: demo_index_def unit_vector_def dot_def)
  have v: "[0, 1] \<in> set demo_index"
    by (simp add: demo_index_def)
  have k: "0 < (1 :: int)"
    by simp
  show ?thesis
    using search_finds_stored_vector_first [OF demo_index_built u v k] by blast
qed

end
